theory Spec2Isabelle
  imports Main
begin

section \<open>Frigate export and backup script: model and verified properties\<close>

text \<open>
  A shallow embedding of \<^verbatim>\<open>frigate-exporter.py\<close>. Strings are byte lists, the
  clock counts whole seconds, dictionaries are maps, and every call that leaves the
  process (HTTP, file system, clock, exit flag) reads an explicit environment value.
\<close>

subsection \<open>Configuration\<close>

text \<open>
  The module-level globals set by \<^verbatim>\<open>load_config\<close>. \<^verbatim>\<open>CHINA_TZ\<close> stands for
  the configured pytz zone; the model keeps of it the offset from UTC in seconds and
  takes that offset as constant over the times it converts.
\<close>

record config =
  FRIGATE_API_URL :: string
  SOURCE_PATH :: string
  DEST_PATH :: string
  EXPORT_RETENTION_DAYS :: int
  EXPORT_DAYS_AGO :: int
  CHINA_TZ :: int

subsection \<open>Path resolution\<close>

text \<open>
  \<^verbatim>\<open>os.path.basename\<close> and the two-argument \<^verbatim>\<open>os.path.join\<close> of posixpath:
  the base name is what follows the last slash; join starts over at an absolute second
  argument and otherwise appends it, after a slash unless the first part is empty or ends
  with one.
\<close>

definition basename :: "string \<Rightarrow> string" where
  "basename p = rev (takeWhile (\<lambda>c. c \<noteq> CHR ''/'') (rev p))"

definition path_join :: "string \<Rightarrow> string \<Rightarrow> string" where
  "path_join a b =
     (if b \<noteq> [] \<and> hd b = CHR ''/'' then b
      else if a = [] \<or> last a = CHR ''/'' then a @ b
      else a @ ''/'' @ b)"

definition get_real_file_path :: "config \<Rightarrow> string \<Rightarrow> string" where
  "get_real_file_path cfg video_path =
     (if video_path = [] then []
      else let filename = basename video_path;
               real_path = path_join (SOURCE_PATH cfg) filename
           in real_path)"

subsection \<open>Calendar dates and the date argument\<close>

text \<open>
  The fields of a \<^verbatim>\<open>datetime\<close> that the script reads, and the proleptic Gregorian
  day count of Python's \<^verbatim>\<open>datetime\<close> (\<^verbatim>\<open>toordinal\<close>; 1970-01-01 is day 719163).
\<close>

record ymd =
  year :: nat
  month :: nat
  day :: nat

definition is_leap :: "nat \<Rightarrow> bool" where
  "is_leap y = (y mod 4 = 0 \<and> (y mod 100 \<noteq> 0 \<or> y mod 400 = 0))"

definition days_in_month :: "nat \<Rightarrow> nat \<Rightarrow> nat" where
  "days_in_month y m =
     (if m = 2 then (if is_leap y then 29 else 28)
      else if m = 4 \<or> m = 6 \<or> m = 9 \<or> m = 11 then 30 else 31)"

definition days_before_year :: "nat \<Rightarrow> int" where
  "days_before_year y =
     (let y1 = int y - 1 in y1 * 365 + y1 div 4 - y1 div 100 + y1 div 400)"

definition days_before_month :: "nat \<Rightarrow> nat \<Rightarrow> int" where
  "days_before_month y m = int (sum_list (map (days_in_month y) [1..<m]))"

definition toordinal :: "ymd \<Rightarrow> int" where
  "toordinal d = days_before_year (year d) + days_before_month (year d) (month d) + int (day d)"

text \<open>
  \<^verbatim>\<open>datetime.strptime(date, '%Y-%m-%d')\<close>: the directive patterns of the standard
  library are four digits for \<^verbatim>\<open>%Y\<close>, \<^verbatim>\<open>1[0-2]|0[1-9]|[1-9]\<close> for \<^verbatim>\<open>%m\<close> and
  \<^verbatim>\<open>3[01]|[12]\d|0[1-9]|[1-9]| [1-9]\<close> for \<^verbatim>\<open>%d\<close>, tried in this order; text left
  over, year 0 and a day beyond the month's length raise \<^verbatim>\<open>ValueError\<close>, which is
  \<open>None\<close> here.
\<close>

definition is_digit :: "char \<Rightarrow> bool" where
  "is_digit c = (c \<in> set ''0123456789'')"

definition is_digit19 :: "char \<Rightarrow> bool" where
  "is_digit19 c = (c \<in> set ''123456789'')"

definition digit_val :: "char \<Rightarrow> nat" where
  "digit_val c = of_char c - 48"

fun match_Y :: "string \<Rightarrow> (nat \<times> string) option" where
  "match_Y (a # b # c # d # rest) =
     (if is_digit a \<and> is_digit b \<and> is_digit c \<and> is_digit d
      then Some (1000 * digit_val a + 100 * digit_val b + 10 * digit_val c + digit_val d, rest)
      else None)"
| "match_Y _ = None"

fun match_m :: "string \<Rightarrow> (nat \<times> string) option" where
  "match_m (a # b # rest) =
     (if a = CHR ''1'' \<and> b \<in> set ''012'' then Some (10 + digit_val b, rest)
      else if a = CHR ''0'' \<and> is_digit19 b then Some (digit_val b, rest)
      else if is_digit19 a then Some (digit_val a, b # rest)
      else None)"
| "match_m [a] = (if is_digit19 a then Some (digit_val a, []) else None)"
| "match_m [] = None"

fun match_d :: "string \<Rightarrow> (nat \<times> string) option" where
  "match_d (a # b # rest) =
     (if a = CHR ''3'' \<and> b \<in> set ''01'' then Some (30 + digit_val b, rest)
      else if a \<in> set ''12'' \<and> is_digit b then Some (10 * digit_val a + digit_val b, rest)
      else if a = CHR ''0'' \<and> is_digit19 b then Some (digit_val b, rest)
      else if is_digit19 a then Some (digit_val a, b # rest)
      else if a = CHR '' '' \<and> is_digit19 b then Some (digit_val b, rest)
      else None)"
| "match_d [a] = (if is_digit19 a then Some (digit_val a, []) else None)"
| "match_d [] = None"

fun match_dash :: "string \<Rightarrow> string option" where
  "match_dash (c # rest) = (if c = CHR ''-'' then Some rest else None)"
| "match_dash [] = None"

definition strptime :: "string \<Rightarrow> ymd option" where
  "strptime date =
     (case match_Y date of None \<Rightarrow> None | Some (y, r1) \<Rightarrow>
      case match_dash r1 of None \<Rightarrow> None | Some r2 \<Rightarrow>
      case match_m r2 of None \<Rightarrow> None | Some (m, r3) \<Rightarrow>
      case match_dash r3 of None \<Rightarrow> None | Some r4 \<Rightarrow>
      case match_d r4 of None \<Rightarrow> None | Some (d, r5) \<Rightarrow>
        if r5 = [] \<and> 1 \<le> y \<and> d \<le> days_in_month y m
        then Some \<lparr>year = y, month = m, day = d\<rparr> else None)"

text \<open>
  \<^verbatim>\<open>CHINA_TZ.localize(datetime(y, m, d, hh, mm, ss)).timestamp()\<close>, truncated by
  \<^verbatim>\<open>int\<close>: epoch seconds of a wall-clock time of the configured zone.
\<close>

definition timestamp :: "config \<Rightarrow> ymd \<Rightarrow> int \<Rightarrow> int \<Rightarrow> int \<Rightarrow> int" where
  "timestamp cfg d hh mm ss =
     (toordinal d - 719163) * 86400 + hh * 3600 + mm * 60 + ss - CHINA_TZ cfg"

subsection \<open>Requesting the exports\<close>

datatype http_result = Status int | TransportError

text \<open>
  What \<^verbatim>\<open>export_previous_day_recordings\<close> reads from outside: the calendar day of
  \<^verbatim>\<open>now_china - timedelta(days=EXPORT_DAYS_AGO)\<close>, the camera names of
  \<^verbatim>\<open>GET /api/config\<close> (\<open>None\<close> when \<^verbatim>\<open>get_cameras\<close> catches an exception), and for
  the i-th pass of the camera loop the value of \<^verbatim>\<open>should_exit\<close>, the outcome of the
  POST and the reading of \<^verbatim>\<open>time.time()\<close>.
\<close>

record base_env =
  default_date :: ymd

record requester_env = base_env +
  api_config :: "string list option"
  should_exit_at :: "nat \<Rightarrow> bool"
  post_export :: "nat \<Rightarrow> http_result"
  time_at :: "nat \<Rightarrow> int"

text \<open>
  The list being returned, the global \<^verbatim>\<open>export_start_times\<close>, and the POST requests
  issued so far (camera, start and end timestamp of the URL).
\<close>

record requester_state =
  exported_files :: "(string \<times> int) list"
  export_start_times :: "string \<rightharpoonup> int"
  posts :: "(string \<times> int \<times> int) list"

definition get_cameras :: "requester_env \<Rightarrow> string list" where
  "get_cameras env = (case api_config env of Some cameras \<Rightarrow> cameras | None \<Rightarrow> [''tplink_ipc44aw''])"

definition accepted :: "http_result \<Rightarrow> bool" where
  "accepted r = (case r of Status code \<Rightarrow> code = 200 \<or> code = 201 | TransportError \<Rightarrow> False)"

fun export_loop ::
  "requester_env \<Rightarrow> int \<Rightarrow> int \<Rightarrow> nat \<Rightarrow> string list \<Rightarrow> requester_state \<Rightarrow> requester_state" where
  "export_loop env start_timestamp end_timestamp i [] st = st"
| "export_loop env start_timestamp end_timestamp i (camera # rest) st =
     (if should_exit_at env i then st
      else
        let st1 = st\<lparr>posts := posts st @ [(camera, start_timestamp, end_timestamp)]\<rparr>;
            st2 = (if accepted (post_export env i)
                   then st1\<lparr>export_start_times := (export_start_times st1)(camera \<mapsto> time_at env i),
                           exported_files := exported_files st1 @ [(camera, start_timestamp)]\<rparr>
                   else st1)
        in export_loop env start_timestamp end_timestamp (Suc i) rest st2)"

text \<open>
  The two argument checks. A date that is \<^verbatim>\<open>None\<close> or the empty string is falsy and
  selects the default day; a time range that is \<^verbatim>\<open>None\<close> selects the whole day.
  \<open>None\<close> is the early \<^verbatim>\<open>return []\<close>.
\<close>

definition target_date :: "'a base_env_scheme \<Rightarrow> string option \<Rightarrow> ymd option" where
  "target_date env date =
     (case date of
        None \<Rightarrow> Some (default_date env)
      | Some s \<Rightarrow> if s = [] then Some (default_date env) else strptime s)"

definition hours :: "(int \<times> int) option \<Rightarrow> (int \<times> int) option" where
  "hours time_range =
     (case time_range of
        None \<Rightarrow> Some (0, 23)
      | Some (start_hour, end_hour) \<Rightarrow>
          if \<not> (0 \<le> start_hour \<and> start_hour \<le> 23 \<and> 0 \<le> end_hour \<and> end_hour \<le> 23
                \<and> start_hour \<le> end_hour)
          then None else Some (start_hour, end_hour))"

definition export_previous_day_recordings ::
  "config \<Rightarrow> requester_env \<Rightarrow> (string \<rightharpoonup> int) \<Rightarrow> string list option \<Rightarrow> string option \<Rightarrow>
   (int \<times> int) option \<Rightarrow> requester_state" where
  "export_previous_day_recordings cfg env start_times cameras date time_range =
     (let nothing = \<lparr>exported_files = [], export_start_times = start_times, posts = []\<rparr> in
      case target_date env date of
        None \<Rightarrow> nothing
      | Some target \<Rightarrow>
         (case hours time_range of
            None \<Rightarrow> nothing
          | Some (start_hour, end_hour) \<Rightarrow>
              let start_timestamp = timestamp cfg target start_hour 0 0;
                  end_timestamp = timestamp cfg target end_hour 59 59;
                  cameras' = (case cameras of None \<Rightarrow> get_cameras env | Some cs \<Rightarrow> cs)
              in export_loop env start_timestamp end_timestamp 0 cameras' nothing))"


text \<open>
  How many passes the camera loop makes from pass \<open>i\<close> on with \<open>n\<close> cameras left:
  it stops at the first pass that finds \<^verbatim>\<open>should_exit\<close> set.
\<close>

fun attempts :: "requester_env \<Rightarrow> nat \<Rightarrow> nat \<Rightarrow> nat" where
  "attempts env i 0 = 0"
| "attempts env i (Suc n) = (if should_exit_at env i then 0 else Suc (attempts env (Suc i) n))"

subsection \<open>Waiting for the exports to complete\<close>

text \<open>
  An entry of the JSON array of \<^verbatim>\<open>GET /api/exports\<close>. A key may be absent, and the
  script reads every key with \<^verbatim>\<open>dict.get\<close> and a default.
\<close>

record export_record =
  export_id :: "string option"
  camera :: "string option"
  name :: "string option"
  video_path :: "string option"
  in_progress :: "bool option"

definition dict_get :: "'a option \<Rightarrow> 'a \<Rightarrow> 'a" where
  "dict_get v fallback = (case v of None \<Rightarrow> fallback | Some x \<Rightarrow> x)"

text \<open>The substring test \<^verbatim>\<open>sub in s\<close>.\<close>

fun str_prefix :: "string \<Rightarrow> string \<Rightarrow> bool" where
  "str_prefix [] s = True"
| "str_prefix (c # cs) [] = False"
| "str_prefix (c # cs) (d # ds) = (c = d \<and> str_prefix cs ds)"

fun str_contains :: "string \<Rightarrow> string \<Rightarrow> bool" where
  "str_contains sub [] = (sub = [])"
| "str_contains sub (c # cs) = (str_prefix sub (c # cs) \<or> str_contains sub cs)"

text \<open>
  \<^verbatim>\<open>strftime('%Y-%m-%d')\<close>, with the year written in four digits (as it is for the
  years from 1000 on).
\<close>

definition digit_char :: "nat \<Rightarrow> char" where
  "digit_char n = ''0123456789'' ! (n mod 10)"

definition strftime :: "ymd \<Rightarrow> string" where
  "strftime d =
     [digit_char (year d div 1000), digit_char (year d div 100), digit_char (year d div 10),
      digit_char (year d)] @ ''-'' @
     [digit_char (month d div 10), digit_char (month d)] @ ''-'' @
     [digit_char (day d div 10), digit_char (day d)]"

text \<open>The default of \<^verbatim>\<open>export.get("video_path", ...)\<close> in the stability check, in UTF-8.\<close>

definition unknown_path :: string where
  "unknown_path = [CHR 0xE6, CHR 0x9C, CHR 0xAA, CHR 0xE7, CHR 0x9F, CHR 0xA5,
                   CHR 0xE8, CHR 0xB7, CHR 0xAF, CHR 0xE5, CHR 0xBE, CHR 0x84]"

text \<open>
  What one pass of the polling loop reads from outside: \<^verbatim>\<open>should_exit\<close> at the loop
  test, the decoded answer of \<^verbatim>\<open>GET /api/exports\<close> (\<open>None\<close> when the request, the
  status check or the decoding raises), the size of every path that exists on disk, and how
  many seconds beyond the 30 of \<^verbatim>\<open>time.sleep(30)\<close> go by until the next loop test.
\<close>

record poll_obs =
  should_exit :: bool
  api_exports :: "export_record list option"
  disk :: "string \<rightharpoonup> nat"
  delay :: nat

record tracker_env = base_env +
  poll_at :: "nat \<Rightarrow> poll_obs"

text \<open>
  The loop's variables: the pending set (a duplicate-free list, walked in list order where
  the script walks \<^verbatim>\<open>list(pending_cameras)\<close>), the size ledger \<^verbatim>\<open>file_sizes\<close>, the
  seconds since \<^verbatim>\<open>start_time\<close> at the last loop test, and counters of the status
  queries and sleeps made.
\<close>

record tracker_state =
  pending_cameras :: "string list"
  file_sizes :: "string \<rightharpoonup> nat"
  elapsed :: int
  polls :: nat
  sleeps :: nat

text \<open>
  The value returned, the cameras named in the final warning, and the loop's variables at
  the return (\<open>None\<close> when the function returns before it builds the pending set).
\<close>

record tracker_result =
  returned :: bool
  unresolved :: "string list"
  final :: "tracker_state option"

definition stable_path :: "config \<Rightarrow> export_record \<Rightarrow> string" where
  "stable_path cfg export = get_real_file_path cfg (dict_get (video_path export) unknown_path)"

text \<open>
  The inner loop over \<^verbatim>\<open>camera_exports\<close> that computes \<^verbatim>\<open>all_files_stable\<close>: a file
  that does not exist is passed over, the first file whose size differs from the ledger
  ends the loop.
\<close>

fun files_stable ::
  "config \<Rightarrow> (string \<rightharpoonup> nat) \<Rightarrow> export_record list \<Rightarrow> (string \<rightharpoonup> nat) \<Rightarrow> bool \<times> (string \<rightharpoonup> nat)" where
  "files_stable cfg dsk [] sizes = (True, sizes)"
| "files_stable cfg dsk (export # rest) sizes =
     (let real_path = stable_path cfg export in
      case dsk real_path of
        None \<Rightarrow> files_stable cfg dsk rest sizes
      | Some current_size \<Rightarrow>
          let last_size = dict_get (sizes real_path) current_size;
              sizes' = sizes(real_path \<mapsto> current_size)
          in if current_size \<noteq> last_size then (False, sizes')
             else files_stable cfg dsk rest sizes')"

text \<open>Dropping the ledger entries of a confirmed camera.\<close>

fun purge :: "config \<Rightarrow> export_record list \<Rightarrow> (string \<rightharpoonup> nat) \<Rightarrow> (string \<rightharpoonup> nat)" where
  "purge cfg [] sizes = sizes"
| "purge cfg (export # rest) sizes =
     purge cfg rest (sizes(get_real_file_path cfg (dict_get (video_path export) []) := None))"

text \<open>The branch for exports still in progress: the ledger takes the size of each file that exists.\<close>

fun record_progress ::
  "config \<Rightarrow> (string \<rightharpoonup> nat) \<Rightarrow> export_record list \<Rightarrow> (string \<rightharpoonup> nat) \<Rightarrow> (string \<rightharpoonup> nat)" where
  "record_progress cfg dsk [] sizes = sizes"
| "record_progress cfg dsk (export # rest) sizes =
     (let real_path = stable_path cfg export in
      case dsk real_path of
        None \<Rightarrow> record_progress cfg dsk rest sizes
      | Some file_size \<Rightarrow> record_progress cfg dsk rest (sizes(real_path \<mapsto> file_size)))"

definition camera_exports :: "string \<Rightarrow> export_record list \<Rightarrow> string \<Rightarrow> export_record list" where
  "camera_exports target_date_str exports cam =
     filter (\<lambda>e. camera e = Some cam \<and> str_contains target_date_str (dict_get (name e) [])) exports"

definition in_progress_exports :: "export_record list \<Rightarrow> export_record list" where
  "in_progress_exports matched = filter (\<lambda>e. dict_get (in_progress e) False) matched"

text \<open>The body of \<^verbatim>\<open>for camera in list(pending_cameras)\<close>, on the pending set and the ledger.\<close>

definition check_camera ::
  "config \<Rightarrow> string \<Rightarrow> export_record list \<Rightarrow> (string \<rightharpoonup> nat) \<Rightarrow> string \<Rightarrow>
   string list \<times> (string \<rightharpoonup> nat) \<Rightarrow> string list \<times> (string \<rightharpoonup> nat)" where
  "check_camera cfg target_date_str exports dsk cam ps =
     (let pending = fst ps; sizes = snd ps;
          matched = camera_exports target_date_str exports cam
      in if in_progress_exports matched = [] \<and> matched \<noteq> [] then
           (let stable = files_stable cfg dsk matched sizes in
            if fst stable then (removeAll cam pending, purge cfg matched (snd stable))
            else (pending, snd stable))
         else if matched = [] then (pending, sizes)
         else (pending, record_progress cfg dsk (in_progress_exports matched) sizes))"

definition poll_cameras ::
  "config \<Rightarrow> string \<Rightarrow> export_record list \<Rightarrow> (string \<rightharpoonup> nat) \<Rightarrow> string list \<Rightarrow>
   (string \<rightharpoonup> nat) \<Rightarrow> string list \<times> (string \<rightharpoonup> nat)" where
  "poll_cameras cfg target_date_str exports dsk pending sizes =
     fold (check_camera cfg target_date_str exports dsk) pending (pending, sizes)"

definition sleep :: "poll_obs \<Rightarrow> tracker_state \<Rightarrow> tracker_state" where
  "sleep obs st = st\<lparr>elapsed := elapsed st + 30 + int (delay obs), sleeps := Suc (sleeps st)\<rparr>"


text \<open>
  The polling loop with the statements that follow it. A pass that catches an exception
  sleeps and tries again; a pass that empties the pending set returns \<^verbatim>\<open>True\<close> at once.
\<close>

function check_loop :: "config \<Rightarrow> tracker_env \<Rightarrow> string \<Rightarrow> int \<Rightarrow> tracker_state \<Rightarrow> tracker_result" where
  "check_loop cfg env target_date_str max_wait_time st =
     (if elapsed st < max_wait_time \<and> pending_cameras st \<noteq> [] \<and> \<not> should_exit (poll_at env (polls st))
      then
        (case api_exports (poll_at env (polls st)) of
           None \<Rightarrow>
             check_loop cfg env target_date_str max_wait_time
               (sleep (poll_at env (polls st)) (st\<lparr>polls := Suc (polls st)\<rparr>))
         | Some exports \<Rightarrow>
             (if fst (poll_cameras cfg target_date_str exports (disk (poll_at env (polls st)))
                        (pending_cameras st) (file_sizes st)) \<noteq> []
              then check_loop cfg env target_date_str max_wait_time
                     (sleep (poll_at env (polls st))
                        (st\<lparr>pending_cameras := fst (poll_cameras cfg target_date_str exports
                                (disk (poll_at env (polls st))) (pending_cameras st) (file_sizes st)),
                            file_sizes := snd (poll_cameras cfg target_date_str exports
                                (disk (poll_at env (polls st))) (pending_cameras st) (file_sizes st)),
                            polls := Suc (polls st)\<rparr>))
              else \<lparr>returned = True, unresolved = [],
                    final = Some (st\<lparr>pending_cameras := [],
                            file_sizes := snd (poll_cameras cfg target_date_str exports
                                (disk (poll_at env (polls st))) (pending_cameras st) (file_sizes st)),
                            polls := Suc (polls st)\<rparr>)\<rparr>))
      else \<lparr>returned = (pending_cameras st = []), unresolved = pending_cameras st, final = Some st\<rparr>)"
  by pat_completeness auto
termination
  by (relation "measure (\<lambda>(cfg, env, target_date_str, max_wait_time, st). nat (max_wait_time - elapsed st))")
     (auto simp: sleep_def)

definition initial_state :: "string list \<Rightarrow> tracker_state" where
  "initial_state cameras =
     \<lparr>pending_cameras = remdups cameras, file_sizes = Map.empty, elapsed = 0, polls = 0, sleeps = 0\<rparr>"

definition check_export_status ::
  "config \<Rightarrow> tracker_env \<Rightarrow> string list \<Rightarrow> int \<Rightarrow> string option \<Rightarrow> tracker_result" where
  "check_export_status cfg env cameras max_wait_time date =
     (case target_date env date of
        None \<Rightarrow> \<lparr>returned = False, unresolved = [], final = None\<rparr>
      | Some target \<Rightarrow>
          check_loop cfg env (strftime target) max_wait_time (initial_state cameras))"

text \<open>
  One pass of the loop as a function on the loop's variables, and the state after \<open>n\<close>
  passes: the vocabulary in which the loop's result is stated below.
\<close>

definition loop_body :: "config \<Rightarrow> tracker_env \<Rightarrow> string \<Rightarrow> tracker_state \<Rightarrow> tracker_state" where
  "loop_body cfg env target_date_str st =
     (let obs = poll_at env (polls st) in
      case api_exports obs of
        None \<Rightarrow> sleep obs (st\<lparr>polls := Suc (polls st)\<rparr>)
      | Some exports \<Rightarrow>
          let polled = poll_cameras cfg target_date_str exports (disk obs) (pending_cameras st) (file_sizes st);
              st' = st\<lparr>pending_cameras := fst polled, file_sizes := snd polled, polls := Suc (polls st)\<rparr>
          in if fst polled \<noteq> [] then sleep obs st' else st')"

primrec after_passes ::
  "config \<Rightarrow> tracker_env \<Rightarrow> string \<Rightarrow> tracker_state \<Rightarrow> nat \<Rightarrow> tracker_state" where
  "after_passes cfg env target_date_str st 0 = st"
| "after_passes cfg env target_date_str st (Suc n) =
     after_passes cfg env target_date_str (loop_body cfg env target_date_str st) n"


subsection \<open>Moving the finished exports\<close>

text \<open>
  The file system as the paths that exist, each a regular file with its size or a
  directory. \<^verbatim>\<open>os.makedirs(path, exist_ok=True)\<close> raises when the path is a regular
  file (or when the environment refuses); \<open>None\<close> is the exception.
\<close>

datatype node = File nat | Directory

datatype action = MakeDirs string | Move string string | DeleteExport string

text \<open>
  What \<^verbatim>\<open>check_and_move_exported_files\<close> reads from outside: the decoded answer of
  \<^verbatim>\<open>GET /api/exports\<close> (\<open>None\<close> when it raises), whether \<^verbatim>\<open>os.makedirs\<close> is refused,
  \<^verbatim>\<open>should_exit\<close> at the top of the i-th pass of the loop, and whether \<^verbatim>\<open>shutil.move\<close>
  raises for a source path.
\<close>

record relocator_env = base_env +
  exports_answer :: "export_record list option"
  makedirs_refused :: bool
  exit_before :: "nat \<Rightarrow> bool"
  move_fails :: "string \<Rightarrow> bool"

text \<open>
  The file system, the counter \<^verbatim>\<open>moved_files\<close>, and the calls made that change the
  world: the directory creation, each move that succeeded and each \<^verbatim>\<open>DELETE\<close> sent.
\<close>

record relocator_state =
  fs :: "string \<rightharpoonup> node"
  moved_files :: nat
  actions :: "action list"

definition makedirs :: "relocator_env \<Rightarrow> string \<Rightarrow> (string \<rightharpoonup> node) \<Rightarrow> (string \<rightharpoonup> node) option" where
  "makedirs env path files =
     (if makedirs_refused env then None
      else case files path of
             Some (File sz) \<Rightarrow> None
           | Some Directory \<Rightarrow> Some files
           | None \<Rightarrow> Some (files(path \<mapsto> Directory)))"

text \<open>
  The body of the loop over \<^verbatim>\<open>target_exports\<close> below the exit check. A successful
  \<^verbatim>\<open>shutil.move\<close> is a rename: the source path is gone and the destination path holds
  what the source held.
\<close>

definition move_export :: "config \<Rightarrow> relocator_env \<Rightarrow> export_record \<Rightarrow> relocator_state \<Rightarrow> relocator_state" where
  "move_export cfg env export st =
     (let path = dict_get (video_path export) [];
          real_path = get_real_file_path cfg path
      in if path = [] then st
         else case fs st real_path of
           None \<Rightarrow> st
         | Some content \<Rightarrow>
             let filename = basename real_path;
                 dest_file = path_join (DEST_PATH cfg) filename
             in if move_fails env real_path then st
                else st\<lparr>fs := ((fs st)(real_path := None))(dest_file \<mapsto> content),
                        moved_files := Suc (moved_files st),
                        actions := actions st @ [Move real_path dest_file] @
                          (if dict_get (export_id export) [] \<noteq> []
                           then [DeleteExport (dict_get (export_id export) [])] else [])\<rparr>)"

fun move_loop ::
  "config \<Rightarrow> relocator_env \<Rightarrow> nat \<Rightarrow> export_record list \<Rightarrow> relocator_state \<Rightarrow> relocator_state" where
  "move_loop cfg env i [] st = st"
| "move_loop cfg env i (export # rest) st =
     (if exit_before env i then st
      else move_loop cfg env (Suc i) rest (move_export cfg env export st))"

definition target_exports :: "string list \<Rightarrow> string \<Rightarrow> export_record list \<Rightarrow> export_record list" where
  "target_exports cameras target_date_str exports =
     filter (\<lambda>e. (case camera e of None \<Rightarrow> False | Some c \<Rightarrow> c \<in> set cameras) \<and>
                 \<not> dict_get (in_progress e) False \<and>
                 str_contains target_date_str (dict_get (name e) [])) exports"

text \<open>The loop's variables when the loop is entered, after the directory creation.\<close>

definition after_makedirs :: "config \<Rightarrow> (string \<rightharpoonup> node) \<Rightarrow> relocator_state" where
  "after_makedirs cfg files = \<lparr>fs = files, moved_files = 0, actions = [MakeDirs (DEST_PATH cfg)]\<rparr>"

definition check_and_move_exported_files ::
  "config \<Rightarrow> relocator_env \<Rightarrow> string list \<Rightarrow> string option \<Rightarrow> (string \<rightharpoonup> node) \<Rightarrow> relocator_state" where
  "check_and_move_exported_files cfg env cameras date files =
     (case exports_answer env of
        None \<Rightarrow> \<lparr>fs = files, moved_files = 0, actions = []\<rparr>
      | Some exports \<Rightarrow>
         (case makedirs env (DEST_PATH cfg) files of
            None \<Rightarrow> \<lparr>fs = files, moved_files = 0, actions = []\<rparr>
          | Some files' \<Rightarrow>
             (case target_date env date of
                None \<Rightarrow> after_makedirs cfg files'
              | Some target \<Rightarrow>
                  move_loop cfg env 0 (target_exports cameras (strftime target) exports)
                    (after_makedirs cfg files'))))"

fun is_move :: "action \<Rightarrow> bool" where
  "is_move (Move src dst) = True"
| "is_move a = False"

subsection \<open>Cleaning old exports\<close>

text \<open>
  An entry of \<^verbatim>\<open>os.listdir(DEST_PATH)\<close> with what \<^verbatim>\<open>os.path.isfile\<close> and
  \<^verbatim>\<open>os.path.getmtime\<close> say about it.
\<close>

record dir_entry =
  filename :: string
  isfile :: bool
  getmtime :: int

text \<open>
  What \<^verbatim>\<open>clean_old_exports\<close> reads from outside: the instant of
  \<^verbatim>\<open>datetime.now(CHINA_TZ)\<close> in epoch seconds, the offset from UTC of the host's local
  zone (the zone \<^verbatim>\<open>datetime.fromtimestamp\<close> converts to when it is given no zone),
  \<^verbatim>\<open>should_exit\<close> at the top of the i-th pass, and whether \<^verbatim>\<open>os.remove\<close> raises for
  a path.
\<close>

record sweeper_env =
  now :: int
  local_utcoffset :: int
  sweep_exit_before :: "nat \<Rightarrow> bool"
  remove_fails :: "string \<Rightarrow> bool"

text \<open>The names removed, in order, and the counter \<^verbatim>\<open>cleaned_files\<close>.\<close>

record sweeper_state =
  removed :: "string list"
  cleaned_files :: nat

text \<open>
  \<^verbatim>\<open>datetime.fromtimestamp(t)\<close> is the naive wall-clock time of the host's zone, here in
  seconds; \<^verbatim>\<open>CHINA_TZ.localize\<close> reads a naive wall-clock time as one of the configured
  zone, and comparing aware datetimes compares their instants.
\<close>

definition fromtimestamp :: "sweeper_env \<Rightarrow> int \<Rightarrow> int" where
  "fromtimestamp env t = t + local_utcoffset env"

definition localize :: "config \<Rightarrow> int \<Rightarrow> int" where
  "localize cfg naive = naive - CHINA_TZ cfg"

fun clean_loop ::
  "config \<Rightarrow> sweeper_env \<Rightarrow> int \<Rightarrow> nat \<Rightarrow> dir_entry list \<Rightarrow> sweeper_state \<Rightarrow> sweeper_state" where
  "clean_loop cfg env cutoff_date i [] st = st"
| "clean_loop cfg env cutoff_date i (entry # rest) st =
     (if sweep_exit_before env i then st
      else
        let file_path = path_join (DEST_PATH cfg) (filename entry) in
        if isfile entry then
          (let file_modified = localize cfg (fromtimestamp env (getmtime entry)) in
           if file_modified < cutoff_date then
             (if remove_fails env file_path then clean_loop cfg env cutoff_date (Suc i) rest st
              else clean_loop cfg env cutoff_date (Suc i) rest
                     (st\<lparr>removed := removed st @ [filename entry],
                         cleaned_files := Suc (cleaned_files st)\<rparr>))
           else clean_loop cfg env cutoff_date (Suc i) rest st)
        else clean_loop cfg env cutoff_date (Suc i) rest st)"

text \<open>
  The directory argument is the listing of \<^verbatim>\<open>DEST_PATH\<close>, \<open>None\<close> when the directory
  does not exist.
\<close>

definition clean_old_exports :: "config \<Rightarrow> sweeper_env \<Rightarrow> dir_entry list option \<Rightarrow> sweeper_state" where
  "clean_old_exports cfg env listing =
     (let now_china = now env;
          cutoff_date = now_china - EXPORT_RETENTION_DAYS cfg * 86400
      in case listing of
           None \<Rightarrow> \<lparr>removed = [], cleaned_files = 0\<rparr>
         | Some entries \<Rightarrow> clean_loop cfg env cutoff_date 0 entries \<lparr>removed = [], cleaned_files = 0\<rparr>)"

subsection \<open>Example values\<close>

text \<open>A configuration and environments on which the properties below are evaluated.\<close>

definition example_config :: config where
  "example_config = \<lparr>FRIGATE_API_URL = ''http://frigate:5000'', SOURCE_PATH = ''/data/exports'',
     DEST_PATH = ''/backup'', EXPORT_RETENTION_DAYS = 30, EXPORT_DAYS_AGO = 1, CHINA_TZ = 28800\<rparr>"

definition example_requester_env :: requester_env where
  "example_requester_env = \<lparr>default_date = \<lparr>year = 2024, month = 4, day = 30\<rparr>,
     api_config = Some [''front'', ''yard''],
     should_exit_at = (\<lambda>i. False),
     post_export = (\<lambda>i. if i = 1 then Status 500 else Status 200),
     time_at = (\<lambda>i. 1714550000 + int i)\<rparr>"

definition done_record :: export_record where
  "done_record = \<lparr>export_id = Some ''7'', camera = Some ''front'', name = Some ''front 2024-05-02'',
     video_path = Some ''/media/frigate/exports/front_2024-05-02.mp4'', in_progress = Some False\<rparr>"

definition running_record :: export_record where
  "running_record = done_record\<lparr>in_progress := Some True\<rparr>"

definition no_files :: "string \<rightharpoonup> nat" where
  "no_files = Map.empty"

definition file_of_size :: "nat \<Rightarrow> (string \<rightharpoonup> nat)" where
  "file_of_size n = [''/data/exports/front_2024-05-02.mp4'' \<mapsto> n]"

definition quick_env :: tracker_env where
  "quick_env = \<lparr>default_date = \<lparr>year = 2024, month = 4, day = 30\<rparr>,
     poll_at = (\<lambda>n. \<lparr>should_exit = False, api_exports = Some [done_record],
                      disk = file_of_size 100, delay = 0\<rparr>)\<rparr>"


definition lost_record :: export_record where
  "lost_record = \<lparr>export_id = Some ''8'', camera = Some ''yard'', name = Some ''yard 2024-05-02'',
     video_path = Some ''/media/frigate/exports/yard_2024-05-02.mp4'', in_progress = Some False\<rparr>"

definition example_relocator_env :: relocator_env where
  "example_relocator_env = \<lparr>default_date = \<lparr>year = 2024, month = 4, day = 30\<rparr>,
     exports_answer = Some [lost_record, done_record], makedirs_refused = False,
     exit_before = (\<lambda>i. False), move_fails = (\<lambda>p. False)\<rparr>"

definition source_files :: "string \<rightharpoonup> node" where
  "source_files = [''/data/exports/front_2024-05-02.mp4'' \<mapsto> File 100]"

definition utc_host_env :: sweeper_env where
  "utc_host_env = \<lparr>now = 1717200000, local_utcoffset = 0,
     sweep_exit_before = (\<lambda>i. False), remove_fails = (\<lambda>p. False)\<rparr>"

definition recent_entry :: dir_entry where
  "recent_entry = \<lparr>filename = ''front_2024-05-02.mp4'', isfile = True, getmtime = 1714611600\<rparr>"

subsection \<open>Facts about path resolution\<close>

lemma basename_no_slash: "CHR ''/'' \<notin> set (basename p)"
proof -
  have "\<forall>c \<in> set (takeWhile (\<lambda>c. c \<noteq> CHR ''/'') (rev p)). c \<noteq> CHR ''/''"
    by (auto dest: set_takeWhileD)
  then show ?thesis by (auto simp: basename_def)
qed

lemma basename_split:
  "p = basename p \<or> (\<exists>dir. p = dir @ ''/'' @ basename p)"
proof (cases "CHR ''/'' \<in> set p")
  case False
  then have "\<forall>c \<in> set (rev p). c \<noteq> CHR ''/''" by auto
  then have "takeWhile (\<lambda>c. c \<noteq> CHR ''/'') (rev p) = rev p"
    by (rule takeWhile_eq_all_conv [THEN iffD2])
  then have "basename p = p" unfolding basename_def by (simp only: rev_rev_ident)
  then show ?thesis by simp
next
  case True
  let ?P = "\<lambda>c. c \<noteq> CHR ''/''"
  have dw: "dropWhile ?P (rev p) \<noteq> []"
    using True by (auto simp: dropWhile_eq_Nil_conv)
  then obtain rest where rest: "dropWhile ?P (rev p) = CHR ''/'' # rest"
    using hd_dropWhile [of ?P "rev p"] by (cases "dropWhile ?P (rev p)") auto
  have "rev p = takeWhile ?P (rev p) @ dropWhile ?P (rev p)" by simp
  then have "rev p = takeWhile ?P (rev p) @ CHR ''/'' # rest" using rest by simp
  then have "rev (rev p) = rev (takeWhile ?P (rev p) @ CHR ''/'' # rest)" by simp
  then have "p = rev rest @ ''/'' @ basename p"
    by (simp add: basename_def)
  then show ?thesis by blast
qed

lemma path_join_basename:
  "path_join a (basename p) =
     (if a = [] \<or> last a = CHR ''/'' then a @ basename p else a @ ''/'' @ basename p)"
proof -
  have "basename p \<noteq> [] \<Longrightarrow> hd (basename p) \<noteq> CHR ''/''"
    using basename_no_slash [of p] by (cases "basename p") auto
  then show ?thesis by (auto simp: path_join_def)
qed

text \<open>
  C7. \<^verbatim>\<open>get_real_file_path\<close> is total; the empty path resolves to the empty string;
  a non-empty path resolves to its base name (the part after its last slash, which holds
  no slash) joined to \<^verbatim>\<open>SOURCE_PATH\<close> with one separator.
\<close>

theorem get_real_file_path_spec:
  "get_real_file_path cfg [] = [] \<and>
   (path \<noteq> [] \<longrightarrow>
      get_real_file_path cfg path = path_join (SOURCE_PATH cfg) (basename path) \<and>
      (\<exists>name. (path = name \<or> (\<exists>dir. path = dir @ ''/'' @ name)) \<and>
         CHR ''/'' \<notin> set name \<and>
         get_real_file_path cfg path =
           (if SOURCE_PATH cfg = [] \<or> last (SOURCE_PATH cfg) = CHR ''/''
            then SOURCE_PATH cfg @ name else SOURCE_PATH cfg @ ''/'' @ name)))"
proof -
  have empty: "get_real_file_path cfg [] = []"
    by (simp add: get_real_file_path_def)
  have nonempty: "get_real_file_path cfg path =
      path_join (SOURCE_PATH cfg) (basename path)" if "path \<noteq> []"
    using that by (simp add: get_real_file_path_def)
  show ?thesis
    using empty nonempty basename_split [of path] basename_no_slash [of path]
      path_join_basename [of "SOURCE_PATH cfg" path]
    by metis
qed

theorem get_real_file_path_spec_witness:
  "''/media/frigate/exports/cam_2024-05-01.mp4'' \<noteq> [] \<and>
   get_real_file_path example_config ''/media/frigate/exports/cam_2024-05-01.mp4''
     = ''/data/exports/cam_2024-05-01.mp4''"
  using get_real_file_path_spec [of example_config "''/media/frigate/exports/cam_2024-05-01.mp4''"]
  by (simp add: path_join_def basename_def example_config_def)

subsection \<open>Facts about the export requests\<close>

lemma attempts_le: "attempts env i n \<le> n"
  by (induction n arbitrary: i) auto

lemma attempts_all: "(\<forall>j. i \<le> j \<and> j < i + n \<longrightarrow> \<not> should_exit_at env j) \<Longrightarrow> attempts env i n = n"
  by (induction n arbitrary: i) auto

lemma export_loop_posts:
  "posts (export_loop env a b i cams st) =
     posts st @ map (\<lambda>c. (c, a, b)) (take (attempts env i (length cams)) cams)"
  by (induction cams arbitrary: i st) (auto simp: Let_def)

lemma export_loop_exported:
  "exported_files (export_loop env a b i cams st) =
     exported_files st @
     map (\<lambda>(c, j). (c, a))
       (filter (\<lambda>(c, j). accepted (post_export env j))
          (take (attempts env i (length cams)) (zip cams [i..<i + length cams])))"
proof (induction cams arbitrary: i st)
  case Nil
  then show ?case by simp
next
  case (Cons c cams)
  have upt: "[i..<i + length (c # cams)] = i # [Suc i..<Suc i + length cams]"
    by (simp add: upt_rec)
  show ?case
    by (simp only: upt) (simp add: Let_def Cons.IH)
qed

lemma export_loop_times_other:
  "(\<forall>(c', j) \<in> set (take (attempts env i (length cams)) (zip cams [i..<i + length cams])).
      c' = c \<longrightarrow> \<not> accepted (post_export env j)) \<Longrightarrow>
   export_start_times (export_loop env a b i cams st) c = export_start_times st c"
proof (induction cams arbitrary: i st)
  case Nil
  then show ?case by simp
next
  case (Cons c0 cams)
  have upt: "[i..<i + length (c0 # cams)] = i # [Suc i..<Suc i + length cams]"
    by (simp add: upt_rec)
  show ?case
  proof (cases "should_exit_at env i")
    case True
    then show ?thesis by simp
  next
    case False
    from Cons.prems False
    have here: "c0 = c \<longrightarrow> \<not> accepted (post_export env i)"
      and rest: "\<forall>(c', j) \<in> set (take (attempts env (Suc i) (length cams)) (zip cams [Suc i..<Suc i + length cams])).
      c' = c \<longrightarrow> \<not> accepted (post_export env j)"
      by (simp_all only: upt) simp_all
    show ?thesis using False here Cons.IH [OF rest]
      by (simp add: Let_def)
  qed
qed

lemma export_loop_times_last:
  "(c, j) \<in> set (take (attempts env i (length cams)) (zip cams [i..<i + length cams])) \<Longrightarrow>
   accepted (post_export env j) \<Longrightarrow>
   (\<forall>(c', j') \<in> set (take (attempts env i (length cams)) (zip cams [i..<i + length cams])).
      c' = c \<and> j < j' \<longrightarrow> \<not> accepted (post_export env j')) \<Longrightarrow>
   export_start_times (export_loop env a b i cams st) c = Some (time_at env j)"
proof (induction cams arbitrary: i st)
  case Nil
  then show ?case by simp
next
  case (Cons c0 cams)
  have upt: "[i..<i + length (c0 # cams)] = i # [Suc i..<Suc i + length cams]"
    by (simp add: upt_rec)
  let ?rest = "take (attempts env (Suc i) (length cams)) (zip cams [Suc i..<Suc i + length cams])"
  from Cons.prems(1) have noexit: "\<not> should_exit_at env i"
    by (auto split: if_splits)
  from Cons.prems(1) noexit have mem: "(c, j) = (c0, i) \<or> (c, j) \<in> set ?rest"
    by (simp only: upt) simp
  from Cons.prems(3) noexit
  have later: "\<forall>(c', j') \<in> set ?rest. c' = c \<and> j < j' \<longrightarrow> \<not> accepted (post_export env j')"
    by (simp only: upt) simp
  have idx: "\<forall>(c', j') \<in> set ?rest. Suc i \<le> j'"
  proof (clarify)
    fix c' j' assume "(c', j') \<in> set ?rest"
    then have "(c', j') \<in> set (zip cams [Suc i..<Suc i + length cams])"
      by (rule in_set_takeD)
    then have "j' \<in> set [Suc i..<Suc i + length cams]"
      by (rule set_zip_rightD)
    then show "Suc i \<le> j'" by (simp del: upt_Suc)
  qed
  show ?case
  proof (cases "(c, j) \<in> set ?rest")
    case True
    from Cons.IH [OF True Cons.prems(2) later] noexit show ?thesis
      by (simp add: Let_def)
  next
    case False
    with mem have eq: "c = c0" "j = i" by auto
    have "\<forall>(c', j') \<in> set ?rest. c' = c \<longrightarrow> \<not> accepted (post_export env j')"
      using later idx eq by fastforce
    from export_loop_times_other [OF this] noexit eq Cons.prems(2) show ?thesis
      by (simp add: Let_def)
  qed
qed

lemmas calendar_defs = strptime_def is_digit_def is_digit19_def digit_val_def days_in_month_def
  is_leap_def toordinal_def days_before_year_def days_before_month_def timestamp_def

text \<open>
  C4 (amended). When the date argument is a non-empty string that \<^verbatim>\<open>strptime\<close> rejects,
  or the hour range has a component outside 0..23 or a start hour above its end hour,
  \<^verbatim>\<open>export_previous_day_recordings\<close> returns the empty list, issues no POST and leaves
  \<^verbatim>\<open>export_start_times\<close> as it was.
\<close>

theorem export_rejects_bad_arguments:
  assumes "(\<exists>s. date = Some s \<and> s \<noteq> [] \<and> strptime s = None) \<or>
           (\<exists>start_hour end_hour. time_range = Some (start_hour, end_hour) \<and>
              (start_hour < 0 \<or> 23 < start_hour \<or> end_hour < 0 \<or> 23 < end_hour \<or> end_hour < start_hour))"
  shows "exported_files (export_previous_day_recordings cfg env start_times cameras date time_range) = [] \<and>
         posts (export_previous_day_recordings cfg env start_times cameras date time_range) = [] \<and>
         export_start_times (export_previous_day_recordings cfg env start_times cameras date time_range) = start_times"
proof -
  have "target_date env date = None \<or> hours time_range = None"
    using assms by (auto simp: target_date_def hours_def)
  then show ?thesis
    by (cases "target_date env date") (auto simp: export_previous_day_recordings_def Let_def)
qed

theorem export_rejects_bad_arguments_witness:
  "strptime ''2024-13-40'' = None \<and>
   exported_files (export_previous_day_recordings example_config example_requester_env Map.empty
      (Some [''front'']) (Some ''2024-13-40'') None) = [] \<and>
   posts (export_previous_day_recordings example_config example_requester_env Map.empty
      (Some [''front'']) (Some ''2024-13-40'') None) = []"
proof -
  have bad: "strptime ''2024-13-40'' = None" by (simp add: calendar_defs)
  then have "(\<exists>s. Some ''2024-13-40'' = Some s \<and> s \<noteq> [] \<and> strptime s = None) \<or>
           (\<exists>start_hour end_hour. (None :: (int \<times> int) option) = Some (start_hour, end_hour) \<and>
              (start_hour < 0 \<or> 23 < start_hour \<or> end_hour < 0 \<or> 23 < end_hour \<or> end_hour < start_hour))"
    by simp
  from export_rejects_bad_arguments [OF this] bad show ?thesis by simp
qed

text \<open>
  The empty string is not a date either, but \<^verbatim>\<open>if date:\<close> takes it for a missing
  argument: the default day is exported and the request goes out.
\<close>

theorem export_empty_date_counterexample:
  "strptime '''' = None \<and>
   exported_files (export_previous_day_recordings example_config example_requester_env Map.empty
      (Some [''front'']) (Some '''') None) = [(''front'', 1714406400)] \<and>
   posts (export_previous_day_recordings example_config example_requester_env Map.empty
      (Some [''front'']) (Some '''') None) = [(''front'', 1714406400, 1714492799)]"
  by (simp add: calendar_defs export_previous_day_recordings_def target_date_def hours_def
      example_config_def example_requester_env_def accepted_def upt_rec)




text \<open>
  C6. Once the arguments pass the checks, the loop posts for the cameras in order until
  a pass finds \<^verbatim>\<open>should_exit\<close> set, whatever the earlier responses were (for all cameras
  when the flag stays clear). The returned list holds, in order, exactly the cameras whose
  POST came back with status 200 or 201; \<^verbatim>\<open>export_start_times\<close> holds for each of them
  the clock reading of its latest accepted request, and is unchanged for every other camera.
\<close>

theorem export_returns_accepted_cameras:
  assumes args: "target_date env date = Some target" "hours time_range = Some (start_hour, end_hour)"
    and cams: "cams = (case cameras of None \<Rightarrow> get_cameras env | Some cs \<Rightarrow> cs)"
    and k: "k = attempts env 0 (length cams)"
    and r: "r = export_previous_day_recordings cfg env start_times cameras date time_range"
  shows "posts r = map (\<lambda>c. (c, timestamp cfg target start_hour 0 0, timestamp cfg target end_hour 59 59))
                     (take k cams) \<and>
         ((\<forall>j < length cams. \<not> should_exit_at env j) \<longrightarrow> k = length cams) \<and>
         exported_files r =
           map (\<lambda>(c, j). (c, timestamp cfg target start_hour 0 0))
             (filter (\<lambda>(c, j). accepted (post_export env j)) (take k (zip cams [0..<length cams]))) \<and>
         (\<forall>(c, j) \<in> set (take k (zip cams [0..<length cams])).
            accepted (post_export env j) \<and>
            (\<forall>(c', j') \<in> set (take k (zip cams [0..<length cams])).
               c' = c \<and> j < j' \<longrightarrow> \<not> accepted (post_export env j')) \<longrightarrow>
            export_start_times r c = Some (time_at env j)) \<and>
         (\<forall>c. (\<forall>(c', j) \<in> set (take k (zip cams [0..<length cams])).
                  c' = c \<longrightarrow> \<not> accepted (post_export env j)) \<longrightarrow>
              export_start_times r c = start_times c)"
proof -
  let ?a = "timestamp cfg target start_hour 0 0" and ?b = "timestamp cfg target end_hour 59 59"
  let ?st = "\<lparr>exported_files = [], export_start_times = start_times, posts = []\<rparr>"
  have run: "r = export_loop env ?a ?b 0 cams ?st"
    using args cams r by (simp add: export_previous_day_recordings_def Let_def)
  have p: "posts r = map (\<lambda>c. (c, ?a, ?b)) (take k cams)"
    unfolding run k by (simp add: export_loop_posts)
  have all: "(\<forall>j < length cams. \<not> should_exit_at env j) \<longrightarrow> k = length cams"
    unfolding k using attempts_all [of 0 "length cams" env] by simp
  have e: "exported_files r =
           map (\<lambda>(c, j). (c, ?a))
             (filter (\<lambda>(c, j). accepted (post_export env j)) (take k (zip cams [0..<length cams])))"
    unfolding run k using export_loop_exported [of env ?a ?b 0 cams ?st] by simp
  have t: "\<forall>(c, j) \<in> set (take k (zip cams [0..<length cams])).
            accepted (post_export env j) \<and>
            (\<forall>(c', j') \<in> set (take k (zip cams [0..<length cams])).
               c' = c \<and> j < j' \<longrightarrow> \<not> accepted (post_export env j')) \<longrightarrow>
            export_start_times r c = Some (time_at env j)"
    unfolding run k using export_loop_times_last [of _ _ env 0 cams ?a ?b ?st] by auto
  have o: "\<forall>c. (\<forall>(c', j) \<in> set (take k (zip cams [0..<length cams])).
                  c' = c \<longrightarrow> \<not> accepted (post_export env j)) \<longrightarrow>
              export_start_times r c = start_times c"
    unfolding run k using export_loop_times_other [of env 0 cams _ ?a ?b ?st] by auto
  from p all e t o show ?thesis by blast
qed

theorem export_returns_accepted_cameras_witness:
  "exported_files (export_previous_day_recordings example_config example_requester_env Map.empty
      (Some [''front'', ''yard'', ''gate'']) (Some ''2024-05-02'') None)
     = [(''front'', 1714579200), (''gate'', 1714579200)] \<and>
   posts (export_previous_day_recordings example_config example_requester_env Map.empty
      (Some [''front'', ''yard'', ''gate'']) (Some ''2024-05-02'') None)
     = [(''front'', 1714579200, 1714665599), (''yard'', 1714579200, 1714665599),
        (''gate'', 1714579200, 1714665599)] \<and>
   export_start_times (export_previous_day_recordings example_config example_requester_env Map.empty
      (Some [''front'', ''yard'', ''gate'']) (Some ''2024-05-02'') None) ''gate'' = Some 1714550002 \<and>
   export_start_times (export_previous_day_recordings example_config example_requester_env Map.empty
      (Some [''front'', ''yard'', ''gate'']) (Some ''2024-05-02'') None) ''yard'' = None"
proof -
  let ?cams = "[''front'', ''yard'', ''gate'']"
  let ?d = "\<lparr>year = 2024, month = 5, day = 2\<rparr>"
  have td: "target_date example_requester_env (Some ''2024-05-02'') = Some ?d"
    by (simp add: target_date_def calendar_defs)
  have h: "hours None = Some (0, 23)" by (simp add: hours_def)
  have k: "attempts example_requester_env 0 (length ?cams) = 3"
    by (simp add: example_requester_env_def numeral_3_eq_3)
  have ts: "timestamp example_config ?d 0 0 0 = 1714579200"
    "timestamp example_config ?d 23 59 59 = 1714665599"
    by (simp_all add: calendar_defs example_config_def upt_rec)
  have z: "take 3 (zip ?cams [0..<length ?cams]) = [(''front'', 0), (''yard'', 1), (''gate'', 2)]"
    by (simp add: upt_rec)
  have acc: "accepted (post_export example_requester_env 0)"
    "\<not> accepted (post_export example_requester_env (Suc 0))"
    "accepted (post_export example_requester_env (Suc (Suc 0)))"
    by (simp_all add: example_requester_env_def accepted_def)
  have tm: "time_at example_requester_env (Suc (Suc 0)) = 1714550002"
    by (simp add: example_requester_env_def)
  from export_returns_accepted_cameras [OF td h _ k [symmetric] refl,
      of "Some ?cams" example_config Map.empty]
  show ?thesis
    by (simp add: ts z acc tm)
qed
subsection \<open>Facts about the completion check\<close>

declare check_loop.simps [simp del]

lemmas tracker_defs = check_export_status_def target_date_def initial_state_def strftime_def
  digit_char_def poll_cameras_def check_camera_def camera_exports_def in_progress_exports_def
  dict_get_def stable_path_def get_real_file_path_def basename_def path_join_def sleep_def
  done_record_def running_record_def file_of_size_def no_files_def example_config_def


lemma stable_path_example: "stable_path example_config done_record = ''/data/exports/front_2024-05-02.mp4''"
  by (simp add: tracker_defs)

lemma camera_exports_example: "camera_exports ''2024-05-02'' [done_record] ''front'' = [done_record]"
  by (simp add: tracker_defs)

lemma files_stable_iff:
  "fst (files_stable cfg dsk es sizes) \<longleftrightarrow>
     (\<forall>e \<in> set es. \<forall>sz. dsk (stable_path cfg e) = Some sz \<longrightarrow>
        sizes (stable_path cfg e) = None \<or> sizes (stable_path cfg e) = Some sz)"
proof (induction es arbitrary: sizes)
  case Nil
  then show ?case by simp
next
  case (Cons e es)
  let ?p = "stable_path cfg e"
  show ?case
  proof (cases "dsk ?p")
    case None
    then show ?thesis using Cons.IH [of sizes] by simp
  next
    case (Some c)
    show ?thesis
    proof (cases "sizes ?p = None \<or> sizes ?p = Some c")
      case False
      then have "c \<noteq> dict_get (sizes ?p) c" by (auto simp: dict_get_def split: option.splits)
      then have "\<not> fst (files_stable cfg dsk (e # es) sizes)"
        using Some by (simp add: Let_def)
      with False Some show ?thesis by auto
    next
      case True
      then have same: "c = dict_get (sizes ?p) c" by (auto simp: dict_get_def)
      have run: "files_stable cfg dsk (e # es) sizes = files_stable cfg dsk es (sizes(?p \<mapsto> c))"
        using Some same by (simp add: Let_def)
      let ?Q = "\<lambda>s. \<forall>e' \<in> set es. \<forall>sz. dsk (stable_path cfg e') = Some sz \<longrightarrow>
                s (stable_path cfg e') = None \<or> s (stable_path cfg e') = Some sz"
      have equiv: "?Q (sizes(?p \<mapsto> c)) \<longleftrightarrow> ?Q sizes"
        using True Some by (auto simp: fun_upd_def)
      have rest: "fst (files_stable cfg dsk (e # es) sizes) \<longleftrightarrow> ?Q sizes"
        by (simp only: run Cons.IH [of "sizes(?p \<mapsto> c)"] equiv)
      have head: "\<forall>sz. dsk ?p = Some sz \<longrightarrow> sizes ?p = None \<or> sizes ?p = Some sz"
        using True Some by simp
      from rest head show ?thesis by simp
    qed
  qed
qed

lemma check_camera_other:
  "cam \<noteq> cam' \<Longrightarrow>
   cam \<in> set (fst (check_camera cfg d exports dsk cam' ps)) \<longleftrightarrow> cam \<in> set (fst ps)"
  by (simp add: check_camera_def Let_def)

lemma fold_check_camera_other:
  "cam \<notin> set cams \<Longrightarrow>
   cam \<in> set (fst (fold (check_camera cfg d exports dsk) cams ps)) \<longleftrightarrow> cam \<in> set (fst ps)"
proof (induction cams arbitrary: ps)
  case Nil
  then show ?case by simp
next
  case (Cons c cams)
  then have "cam \<noteq> c" "cam \<notin> set cams" by auto
  then show ?case using Cons.IH [of "check_camera cfg d exports dsk c ps"]
    by (simp add: check_camera_other)
qed

lemma check_camera_removes_iff:
  "cam \<in> set (fst ps) \<Longrightarrow>
   cam \<notin> set (fst (check_camera cfg d exports dsk cam ps)) \<longleftrightarrow>
     camera_exports d exports cam \<noteq> [] \<and>
     in_progress_exports (camera_exports d exports cam) = [] \<and>
     (\<forall>e \<in> set (camera_exports d exports cam). \<forall>sz. dsk (stable_path cfg e) = Some sz \<longrightarrow>
        snd ps (stable_path cfg e) = None \<or> snd ps (stable_path cfg e) = Some sz)"
  using files_stable_iff [of cfg dsk "camera_exports d exports cam" "snd ps"]
  by (auto simp: check_camera_def Let_def)

lemma in_progress_exports_Nil:
  "in_progress_exports es = [] \<longleftrightarrow> (\<forall>e \<in> set es. \<not> dict_get (in_progress e) False)"
  by (auto simp: in_progress_exports_def filter_empty_conv)


text \<open>
  C1 (amended). In a pass of the polling loop, a camera of the pending set is removed only
  if at least one export record matches it and the target date, no matching record is marked
  in progress, and every matching record whose resolved file exists has the size that the
  ledger holds for that path when the camera is examined, if the ledger holds one.
\<close>

theorem camera_removed_only_if_settled:
  assumes pending: "pending = before @ cam # after" "distinct pending"
    and removed: "cam \<notin> set (fst (poll_cameras cfg target_date_str exports dsk pending sizes))"
    and ledger: "ledger = snd (fold (check_camera cfg target_date_str exports dsk) before (pending, sizes))"
  shows "camera_exports target_date_str exports cam \<noteq> [] \<and>
         (\<forall>e \<in> set (camera_exports target_date_str exports cam).
            \<not> dict_get (in_progress e) False \<and>
            (\<forall>sz. dsk (stable_path cfg e) = Some sz \<longrightarrow>
               ledger (stable_path cfg e) = None \<or> ledger (stable_path cfg e) = Some sz))"
proof -
  let ?step = "check_camera cfg target_date_str exports dsk"
  let ?ps1 = "fold ?step before (pending, sizes)"
  from pending have nb: "cam \<notin> set before" and na: "cam \<notin> set after" by auto
  have run: "poll_cameras cfg target_date_str exports dsk pending sizes = fold ?step after (?step cam ?ps1)"
    by (simp add: poll_cameras_def pending(1))
  from pending(1) have "cam \<in> set (fst (pending, sizes))" by simp
  then have in1: "cam \<in> set (fst ?ps1)"
    using fold_check_camera_other [OF nb, of cfg target_date_str exports dsk "(pending, sizes)"] by blast
  from removed have "cam \<notin> set (fst (?step cam ?ps1))"
    unfolding run
    using fold_check_camera_other [OF na, of cfg target_date_str exports dsk "?step cam ?ps1"] by blast
  with in1 show ?thesis
    unfolding ledger by (simp only: check_camera_removes_iff in_progress_exports_Nil) blast
qed

theorem camera_removed_only_if_settled_witness:
  "''front'' \<notin> set (fst (poll_cameras example_config ''2024-05-02'' [done_record] (file_of_size 100)
                           [''front''] (file_of_size 100))) \<and>
   camera_exports ''2024-05-02'' [done_record] ''front'' = [done_record] \<and>
   \<not> dict_get (in_progress done_record) False \<and>
   file_of_size 100 (stable_path example_config done_record) = Some 100"
proof -
  have removed: "''front'' \<notin> set (fst (poll_cameras example_config ''2024-05-02'' [done_record]
      (file_of_size 100) [''front''] (file_of_size 100)))"
    by (simp add: tracker_defs)
  have shape: "[''front''] = [] @ ''front'' # []" "distinct [''front'']" by simp_all
  have ledger: "file_of_size 100 = snd (fold (check_camera example_config ''2024-05-02'' [done_record]
      (file_of_size 100)) [] ([''front''], file_of_size 100))" by simp
  have size: "file_of_size 100 (stable_path example_config done_record) = Some 100"
    by (simp add: stable_path_example file_of_size_def)
  from camera_removed_only_if_settled [OF shape removed ledger]
  have "\<not> dict_get (in_progress done_record) False"
    by (simp add: camera_exports_example)
  with removed size show ?thesis by (simp add: camera_exports_example)
qed

text \<open>
  A matching record whose file is not on disk does not keep the camera pending.
\<close>

theorem missing_file_counterexample:
  "''front'' \<in> set [''front''] \<and>
   ''front'' \<notin> set (fst (poll_cameras example_config ''2024-05-02'' [done_record] no_files [''front'']
                           no_files)) \<and>
   camera_exports ''2024-05-02'' [done_record] ''front'' = [done_record] \<and>
   no_files (stable_path example_config done_record) = None"
  by (simp add: tracker_defs)




subsection \<open>Facts about the polling loop\<close>






text \<open>The pending set stays free of duplicates, so a pass examines each camera once.\<close>

lemma check_camera_distinct:
  "distinct (fst ps) \<Longrightarrow> distinct (fst (check_camera cfg d exports dsk cam ps))"
  by (simp add: check_camera_def Let_def distinct_removeAll)

lemma poll_cameras_distinct:
  "distinct pending \<Longrightarrow> distinct (fst (poll_cameras cfg d exports dsk pending sizes))"
proof -
  have "distinct (fst ps) \<Longrightarrow> distinct (fst (fold (check_camera cfg d exports dsk) cams ps))" for cams ps
    by (induction cams arbitrary: ps) (simp_all add: check_camera_distinct)
  then show "distinct pending \<Longrightarrow> ?thesis" by (simp add: poll_cameras_def)
qed

lemma loop_body_distinct:
  "distinct (pending_cameras st) \<Longrightarrow> distinct (pending_cameras (loop_body cfg env d st))"
  by (auto simp: loop_body_def Let_def sleep_def poll_cameras_distinct split: option.splits)

lemma pending_distinct:
  "distinct (pending_cameras (after_passes cfg env d (initial_state cameras) n))"
proof -
  have "distinct (pending_cameras st) \<Longrightarrow> distinct (pending_cameras (after_passes cfg env d st n))" for st
    by (induction n arbitrary: st) (simp_all add: loop_body_distinct)
  then show ?thesis by (simp add: initial_state_def)
qed




text \<open>
  C10 (amended). With an empty camera list and a date argument that is absent, empty or
  parses, \<^verbatim>\<open>check_export_status\<close> returns \<^verbatim>\<open>True\<close> without a status query and
  without a sleep.
\<close>

theorem no_cameras_no_wait:
  assumes "date = None \<or> date = Some [] \<or> (\<exists>s d. date = Some s \<and> strptime s = Some d)"
  shows "check_export_status cfg env [] max_wait_time date =
           \<lparr>returned = True, unresolved = [],
            final = Some \<lparr>pending_cameras = [], file_sizes = Map.empty, elapsed = 0,
                          polls = 0, sleeps = 0\<rparr>\<rparr>"
proof -
  from assms have "\<exists>target. target_date env date = Some target"
    by (auto simp: target_date_def)
  then obtain target where "target_date env date = Some target" by blast
  then show ?thesis
    by (simp add: check_export_status_def initial_state_def check_loop.simps)
qed

theorem no_cameras_no_wait_witness:
  "strptime ''2024-05-02'' = Some \<lparr>year = 2024, month = 5, day = 2\<rparr> \<and>
   returned (check_export_status example_config quick_env [] 7200 (Some ''2024-05-02'')) \<and>
   map_option polls (final (check_export_status example_config quick_env [] 7200 (Some ''2024-05-02'')))
     = Some 0 \<and>
   map_option sleeps (final (check_export_status example_config quick_env [] 7200 (Some ''2024-05-02'')))
     = Some 0"
proof -
  have parse: "strptime ''2024-05-02'' = Some \<lparr>year = 2024, month = 5, day = 2\<rparr>"
    by (simp add: calendar_defs)
  then have "Some ''2024-05-02'' = None \<or> Some ''2024-05-02'' = Some [] \<or>
      (\<exists>s d. Some ''2024-05-02'' = Some s \<and> strptime s = Some d)" by simp
  from no_cameras_no_wait [OF this, of example_config quick_env 7200] parse show ?thesis by simp
qed

text \<open>A date that does not parse makes it return \<^verbatim>\<open>False\<close>, also for an empty camera list.\<close>

theorem no_cameras_bad_date_counterexample:
  "strptime ''2024-13-40'' = None \<and>
   \<not> returned (check_export_status example_config quick_env [] 7200 (Some ''2024-13-40''))"
  by (simp add: check_export_status_def target_date_def calendar_defs)

subsection \<open>Facts about moving the exports\<close>

lemma makedirs_creates: "makedirs env path files = Some files' \<Longrightarrow> files' path = Some Directory"
  by (auto simp: makedirs_def split: if_splits option.splits node.splits)

lemma makedirs_absent:
  "files path = None \<Longrightarrow> \<not> makedirs_refused env \<Longrightarrow>
   makedirs env path files = Some (files(path \<mapsto> Directory))"
  by (simp add: makedirs_def)

lemma move_export_actions: "\<exists>extra. actions (move_export cfg env e st) = actions st @ extra"
  by (simp add: move_export_def Let_def split: option.splits)

lemma move_export_count:
  "moved_files st = length (filter is_move (actions st)) \<Longrightarrow>
   moved_files (move_export cfg env e st) = length (filter is_move (actions (move_export cfg env e st)))"
  by (simp add: move_export_def Let_def split: option.splits)

lemma move_export_missing:
  "dict_get (video_path e) [] = [] \<or>
   fs st (get_real_file_path cfg (dict_get (video_path e) [])) = None \<Longrightarrow>
   move_export cfg env e st = st"
  by (auto simp: move_export_def Let_def)

lemma move_loop_actions:
  "\<exists>extra. actions (move_loop cfg env i es st) = actions st @ extra"
proof (induction es arbitrary: i st)
  case Nil
  then show ?case by simp
next
  case (Cons e es)
  obtain x where x: "actions (move_export cfg env e st) = actions st @ x"
    using move_export_actions by blast
  obtain y where "actions (move_loop cfg env (Suc i) es (move_export cfg env e st))
      = actions (move_export cfg env e st) @ y"
    using Cons.IH by blast
  with x show ?case by simp
qed

lemma move_loop_count:
  "moved_files st = length (filter is_move (actions st)) \<Longrightarrow>
   moved_files (move_loop cfg env i es st) = length (filter is_move (actions (move_loop cfg env i es st)))"
proof (induction es arbitrary: i st)
  case Nil
  then show ?case by simp
next
  case (Cons e es)
  from Cons.prems have "moved_files (move_export cfg env e st)
      = length (filter is_move (actions (move_export cfg env e st)))"
    by (rule move_export_count)
  from Cons.IH [OF this] Cons.prems show ?case by simp
qed

lemma move_loop_append:
  "(\<forall>j. i \<le> j \<and> j < i + length xs \<longrightarrow> \<not> exit_before env j) \<Longrightarrow>
   move_loop cfg env i (xs @ ys) st = move_loop cfg env (i + length xs) ys (move_loop cfg env i xs st)"
proof (induction xs arbitrary: i st)
  case Nil
  then show ?case by simp
next
  case (Cons x xs)
  from Cons.prems have here: "\<not> exit_before env i"
    and later: "\<forall>j. Suc i \<le> j \<and> j < Suc i + length xs \<longrightarrow> \<not> exit_before env j"
    by auto
  show ?case using here Cons.IH [OF later] by simp
qed

lemmas relocator_defs = check_and_move_exported_files_def target_exports_def after_makedirs_def
  makedirs_def move_export_def target_date_def strftime_def digit_char_def dict_get_def
  get_real_file_path_def basename_def path_join_def example_config_def example_relocator_env_def
  done_record_def lost_record_def source_files_def

text \<open>
  C9. Every move is preceded by the creation of the destination directory: a run that
  moves a file has called \<^verbatim>\<open>os.makedirs\<close> successfully first, after which the
  destination is a directory, and an absent destination is created whenever the export list
  could be fetched and the creation is not refused. \<^verbatim>\<open>moved_files\<close> counts exactly the
  moves made. A selected record whose video path is empty or whose resolved source file
  does not exist when the loop reaches it changes nothing: the run continues with the
  records after it from the same file system and the same count.
\<close>

theorem relocation_makes_dir_and_skips_missing:
  assumes r: "r = check_and_move_exported_files cfg env cameras date files"
  shows "(\<forall>src dst. Move src dst \<in> set (actions r) \<longrightarrow>
            (\<exists>files' rest. makedirs env (DEST_PATH cfg) files = Some files' \<and>
               files' (DEST_PATH cfg) = Some Directory \<and>
               actions r = MakeDirs (DEST_PATH cfg) # rest)) \<and>
         (files (DEST_PATH cfg) = None \<and> \<not> makedirs_refused env \<and> exports_answer env \<noteq> None \<longrightarrow>
            (\<exists>rest. actions r = MakeDirs (DEST_PATH cfg) # rest)) \<and>
         moved_files r = length (filter is_move (actions r)) \<and>
         (\<forall>exports files' target before e after.
            exports_answer env = Some exports \<and>
            makedirs env (DEST_PATH cfg) files = Some files' \<and>
            target_date env date = Some target \<and>
            target_exports cameras (strftime target) exports = before @ e # after \<and>
            (\<forall>j \<le> length before. \<not> exit_before env j) \<and>
            (dict_get (video_path e) [] = [] \<or>
             fs (move_loop cfg env 0 before (after_makedirs cfg files'))
                (get_real_file_path cfg (dict_get (video_path e) [])) = None) \<longrightarrow>
            r = move_loop cfg env (Suc (length before)) after
                  (move_loop cfg env 0 before (after_makedirs cfg files')))"
proof -
  let ?dest = "DEST_PATH cfg"
  have entered: "\<exists>rest. actions r = MakeDirs ?dest # rest"
    if "exports_answer env = Some exports" "makedirs env ?dest files = Some files'" for exports files'
  proof (cases "target_date env date")
    case None
    with that show ?thesis by (simp add: r check_and_move_exported_files_def after_makedirs_def)
  next
    case (Some target)
    with that have "r = move_loop cfg env 0 (target_exports cameras (strftime target) exports)
        (after_makedirs cfg files')"
      by (simp add: r check_and_move_exported_files_def)
    then show ?thesis
      using move_loop_actions [of cfg env 0 "target_exports cameras (strftime target) exports"
          "after_makedirs cfg files'"]
      by (auto simp: after_makedirs_def)
  qed
  have A: "\<exists>files' rest. makedirs env ?dest files = Some files' \<and> files' ?dest = Some Directory \<and>
      actions r = MakeDirs ?dest # rest" if "Move src dst \<in> set (actions r)" for src dst
  proof -
    from that obtain exports files' where ok: "exports_answer env = Some exports"
      "makedirs env ?dest files = Some files'"
      by (auto simp: r check_and_move_exported_files_def split: option.splits)
    from entered [OF ok] makedirs_creates [OF ok(2)] ok(2) show ?thesis by blast
  qed
  have B: "\<exists>rest. actions r = MakeDirs ?dest # rest"
    if "files ?dest = None" "\<not> makedirs_refused env" "exports_answer env \<noteq> None"
    using that entered makedirs_absent [of files ?dest env] by blast
  have C: "moved_files r = length (filter is_move (actions r))"
    unfolding r check_and_move_exported_files_def
    by (auto split: option.splits intro!: move_loop_count simp: after_makedirs_def)
  have D: "r = move_loop cfg env (Suc (length before)) after
                  (move_loop cfg env 0 before (after_makedirs cfg files'))"
    if "exports_answer env = Some exports" "makedirs env ?dest files = Some files'"
      "target_date env date = Some target"
      "target_exports cameras (strftime target) exports = before @ e # after"
      "\<forall>j \<le> length before. \<not> exit_before env j"
      "dict_get (video_path e) [] = [] \<or>
       fs (move_loop cfg env 0 before (after_makedirs cfg files'))
          (get_real_file_path cfg (dict_get (video_path e) [])) = None"
    for exports files' target before e after
  proof -
    let ?mid = "move_loop cfg env 0 before (after_makedirs cfg files')"
    from that(1-4) have "r = move_loop cfg env 0 (before @ e # after) (after_makedirs cfg files')"
      by (simp add: r check_and_move_exported_files_def)
    also have "\<dots> = move_loop cfg env (length before) (e # after) ?mid"
      using that(5) move_loop_append [of 0 before env cfg "e # after" "after_makedirs cfg files'"]
      by simp
    also have "\<dots> = move_loop cfg env (Suc (length before)) after ?mid"
      using that(5) move_export_missing [OF that(6), of env] by simp
    finally show ?thesis .
  qed
  from A B C D show ?thesis by blast
qed

theorem relocation_makes_dir_and_skips_missing_witness:
  "source_files (DEST_PATH example_config) = None \<and>
   source_files (get_real_file_path example_config (dict_get (video_path lost_record) [])) = None \<and>
   moved_files (check_and_move_exported_files example_config example_relocator_env
      [''front'', ''yard''] (Some ''2024-05-02'') source_files) = 1 \<and>
   actions (check_and_move_exported_files example_config example_relocator_env
      [''front'', ''yard''] (Some ''2024-05-02'') source_files)
     = [MakeDirs ''/backup'',
        Move ''/data/exports/front_2024-05-02.mp4'' ''/backup/front_2024-05-02.mp4'',
        DeleteExport ''7'']"
proof -
  let ?r = "check_and_move_exported_files example_config example_relocator_env
      [''front'', ''yard''] (Some ''2024-05-02'') source_files"
  let ?files' = "source_files(''/backup'' \<mapsto> Directory)"
  have dest: "DEST_PATH example_config = ''/backup''" by (simp add: example_config_def)
  have absent: "source_files (DEST_PATH example_config) = None"
    by (simp add: source_files_def example_config_def)
  have lost: "source_files (get_real_file_path example_config (dict_get (video_path lost_record) [])) = None"
    by (simp add: relocator_defs)
  have answer: "exports_answer example_relocator_env = Some [lost_record, done_record]"
    by (simp add: example_relocator_env_def)
  have mk: "makedirs example_relocator_env (DEST_PATH example_config) source_files = Some ?files'"
    by (simp add: relocator_defs)
  have td: "target_date example_relocator_env (Some ''2024-05-02'') = Some \<lparr>year = 2024, month = 5, day = 2\<rparr>"
    by (simp add: target_date_def calendar_defs)
  have te: "target_exports [''front'', ''yard''] (strftime \<lparr>year = 2024, month = 5, day = 2\<rparr>)
      [lost_record, done_record] = [] @ lost_record # [done_record]"
    by (simp add: relocator_defs)
  have noexit: "\<forall>j \<le> length ([] :: export_record list). \<not> exit_before example_relocator_env j"
    by (simp add: example_relocator_env_def)
  have missing: "dict_get (video_path lost_record) [] = [] \<or>
      fs (move_loop example_config example_relocator_env 0 [] (after_makedirs example_config ?files'))
        (get_real_file_path example_config (dict_get (video_path lost_record) [])) = None"
    by (simp add: relocator_defs)
  from relocation_makes_dir_and_skips_missing [OF refl, of example_config example_relocator_env
      "[''front'', ''yard'']" "Some ''2024-05-02''" source_files]
    answer mk td te noexit missing
  have run: "?r = move_loop example_config example_relocator_env (Suc (length ([] :: export_record list)))
      [done_record] (move_loop example_config example_relocator_env 0 [] (after_makedirs example_config ?files'))"
    by blast
  have "moved_files ?r = 1 \<and> actions ?r = [MakeDirs ''/backup'',
        Move ''/data/exports/front_2024-05-02.mp4'' ''/backup/front_2024-05-02.mp4'',
        DeleteExport ''7'']"
    unfolding run by (simp add: relocator_defs Let_def)
  with absent lost show ?thesis by simp
qed

subsection \<open>Facts about the retention sweep\<close>

text \<open>
  With the exit flag clear and no removal failing, the sweep removes the regular files
  whose modification time, shifted by the difference between the host's offset and the
  configured one, is before the cutoff.
\<close>

lemma clean_loop_removed:
  assumes "\<forall>j. \<not> sweep_exit_before env j" "\<forall>p. \<not> remove_fails env p"
  shows "removed (clean_loop cfg env cutoff i entries st) =
           removed st @ map filename
             (filter (\<lambda>e. isfile e \<and> getmtime e + local_utcoffset env - CHINA_TZ cfg < cutoff) entries)"
  using assms
  by (induction entries arbitrary: i st) (simp_all add: Let_def fromtimestamp_def localize_def)

lemma clean_old_exports_removed:
  assumes "\<forall>j. \<not> sweep_exit_before env j" "\<forall>p. \<not> remove_fails env p"
  shows "removed (clean_old_exports cfg env (Some entries)) =
           map filename
             (filter (\<lambda>e. isfile e \<and>
                 getmtime e + (local_utcoffset env - CHINA_TZ cfg)
                   < now env - EXPORT_RETENTION_DAYS cfg * 86400) entries)"
  using clean_loop_removed [OF assms, of cfg _ 0 entries "\<lparr>removed = [], cleaned_files = 0\<rparr>"]
  by (simp add: clean_old_exports_def Let_def algebra_simps)

text \<open>Where the host's zone is the configured zone, the files removed are those modified before the cutoff.\<close>

lemma clean_old_exports_same_zone:
  assumes "\<forall>j. \<not> sweep_exit_before env j" "\<forall>p. \<not> remove_fails env p"
    and "local_utcoffset env = CHINA_TZ cfg"
  shows "removed (clean_old_exports cfg env (Some entries)) =
           map filename
             (filter (\<lambda>e. isfile e \<and> getmtime e < now env - EXPORT_RETENTION_DAYS cfg * 86400) entries)"
  using clean_old_exports_removed [OF assms(1,2), of cfg entries] assms(3) by simp

text \<open>
  C8 (the code departs from it). On a host whose local zone is UTC, with the configured
  zone eight hours east of it and a retention of 30 days, a regular file modified one hour
  after the cutoff is removed: \<^verbatim>\<open>datetime.fromtimestamp\<close> yields the host's wall-clock
  time and \<^verbatim>\<open>CHINA_TZ.localize\<close> reads it as the configured zone's, which moves the
  file's time eight hours into the past.
\<close>

theorem sweep_removes_file_newer_than_cutoff:
  "CHINA_TZ example_config = 28800 \<and> local_utcoffset utc_host_env = 0 \<and>
   now utc_host_env - EXPORT_RETENTION_DAYS example_config * 86400 = 1714608000 \<and>
   getmtime recent_entry = 1714611600 \<and>
   removed (clean_old_exports example_config utc_host_env (Some [recent_entry]))
     = [''front_2024-05-02.mp4'']"
  by (simp add: clean_old_exports_def fromtimestamp_def localize_def example_config_def
      utc_host_env_def recent_entry_def)


end
